theory Spec2Isabelle
  imports Main "HOL-Library.Sublist"
begin

section \<open>Python values: exceptions, attribute access, strings\<close>

text \<open>
  The script \<^verbatim>\<open>scripts/inspect_potx.py\<close> walks an object graph that the document library
  hands to it. Every attribute read on such an object either returns a value or raises.
  The exceptions are the subclasses of Python's \<^verbatim>\<open>Exception\<close>: \<^verbatim>\<open>except Exception\<close>
  catches each of them, \<^verbatim>\<open>getattr(o, name, default)\<close> and \<^verbatim>\<open>hasattr\<close> catch
  \<^verbatim>\<open>AttributeError\<close> only, and \<^verbatim>\<open>except subprocess.CalledProcessError\<close> catches that
  class only.
\<close>

datatype exn =
    AttributeError
  | NotImplementedError
  | ValueError
  | KeyError
  | OSError
  | CalledProcessError
  | PackageNotFoundError

text \<open>The outcome of an attribute read or a call: \<open>Inl e\<close> raises \<open>e\<close>, \<open>Inr v\<close> returns \<open>v\<close>.\<close>

type_synonym 'a result = "exn + 'a"

text \<open>\<^verbatim>\<open>getattr(o, name, default)\<close>: an \<^verbatim>\<open>AttributeError\<close> of the read gives the default,
  any other exception goes on.\<close>

definition getattr_default :: "'a result \<Rightarrow> 'a \<Rightarrow> 'a result" where
  "getattr_default r d =
     (case r of
        Inl e \<Rightarrow> if e = AttributeError then Inr d else Inl e
      | Inr v \<Rightarrow> Inr v)"

text \<open>\<^verbatim>\<open>hasattr(o, name)\<close>: the read is made; \<^verbatim>\<open>AttributeError\<close> gives False, any other
  exception goes on.\<close>

definition hasattr :: "'a result \<Rightarrow> bool result" where
  "hasattr r =
     (case r of
        Inl e \<Rightarrow> if e = AttributeError then Inr False else Inl e
      | Inr v \<Rightarrow> Inr True)"

text \<open>
  A Python \<^verbatim>\<open>str\<close> is a sequence of code points. The model carries the code points up to
  255 in a \<^typ>\<open>char\<close> each, so \<^const>\<open>length\<close> is Python's \<^verbatim>\<open>len\<close>. \<open>isspace\<close> is
  \<^verbatim>\<open>str.isspace\<close> on that range: the characters \<^verbatim>\<open>str.strip()\<close> removes.
\<close>

definition isspace :: "char \<Rightarrow> bool" where
  "isspace c =
     (let n = (of_char c :: nat)
      in (9 \<le> n \<and> n \<le> 13) \<or> (28 \<le> n \<and> n \<le> 32) \<or> n = 133 \<or> n = 160)"

definition lstrip :: "string \<Rightarrow> string" where
  "lstrip s = dropWhile isspace s"

definition rstrip :: "string \<Rightarrow> string" where
  "rstrip s = rev (dropWhile isspace (rev s))"

definition strip :: "string \<Rightarrow> string" where
  "strip s = rstrip (lstrip s)"

text \<open>\<^verbatim>\<open>s.replace(old, new)\<close> for one-character \<open>old\<close> and \<open>new\<close>.\<close>

definition replace :: "string \<Rightarrow> char \<Rightarrow> char \<Rightarrow> string" where
  "replace s old new = map (\<lambda>c. if c = old then new else c) s"

definition newline :: char where
  "newline = CHR 0x0A"

definition quote :: char where
  "quote = CHR 0x27"

text \<open>The expression \<^verbatim>\<open>x.text.strip().replace('\n', ' ')\<close> of lines 25, 55 and 75.\<close>

definition strip_replace :: "string \<Rightarrow> string" where
  "strip_replace s = replace (strip s) newline (CHR '' '')"

fun startswith :: "string \<Rightarrow> string \<Rightarrow> bool" where
  "startswith s [] = True"
| "startswith [] (p # ps) = False"
| "startswith (c # cs) (p # ps) = (c = p \<and> startswith cs ps)"


text \<open>\<^verbatim>\<open>sep.join(xs)\<close>.\<close>

fun join :: "string \<Rightarrow> string list \<Rightarrow> string" where
  "join sep [] = []"
| "join sep [x] = x"
| "join sep (x # y # ys) = x @ sep @ join sep (y # ys)"



text \<open>Decimal formatting of an integer, as an f-string does.\<close>

fun str_nat :: "nat \<Rightarrow> string" where
  "str_nat n =
     (if n < 10 then [''0123456789'' ! n]
      else str_nat (n div 10) @ [''0123456789'' ! (n mod 10)])"

definition str_int :: "int \<Rightarrow> string" where
  "str_int i = (if i < 0 then CHR ''-'' # str_nat (nat (- i)) else str_nat (nat i))"

section \<open>The document model the library exposes\<close>

text \<open>
  \<^verbatim>\<open>MSO_SHAPE_TYPE\<close> is the library's enumeration of shape types. The script names one
  member, \<^verbatim>\<open>PICTURE\<close>; every other member is \<open>OtherMember name\<close>. A shape's
  \<^verbatim>\<open>shape_type\<close> is a member or \<^verbatim>\<open>None\<close>.
\<close>

datatype mso_shape_type = PICTURE | OtherMember string

fun member_name :: "mso_shape_type \<Rightarrow> string" where
  "member_name PICTURE = ''PICTURE''"
| "member_name (OtherMember n) = n"

text \<open>\<^verbatim>\<open>shape.image\<close>: \<^verbatim>\<open>blob\<close> (bytes, one \<^typ>\<open>char\<close> each), \<^verbatim>\<open>filename\<close> (a string
  or \<^verbatim>\<open>None\<close>) and \<^verbatim>\<open>ext\<close>.\<close>

record image =
  img_blob :: "string result"
  img_filename :: "string option result"
  img_ext :: "string result"

text \<open>
  A shape, as the attribute reads the script makes on it. \<open>element\<close> is the identity of
  the XML element behind the proxy object: the library's \<^verbatim>\<open>==\<close> on shapes compares it.
  \<open>placeholder_format_idx\<close> is the chain \<^verbatim>\<open>shape.placeholder_format.idx\<close>.
\<close>

record shape =
  element :: nat
  shape_type :: "mso_shape_type option result"
  is_placeholder :: "bool result"
  placeholder_format_idx :: "int result"
  has_text_frame :: "bool result"
  shape_text :: "string result"
  shape_image :: "image result"

text \<open>A part related to the slide: \<^verbatim>\<open>content_type\<close>, \<^verbatim>\<open>blob\<close>, \<^verbatim>\<open>partname\<close>.\<close>

record related_part =
  content_type :: "string result"
  part_blob :: "string result"
  partname :: "string result"

text \<open>\<^verbatim>\<open>slide.part\<close>; \<open>related_parts\<close> is \<^verbatim>\<open>part.related_parts.values()\<close>, in the
  dictionary's order.\<close>

record slide_part =
  related_parts :: "related_part list result"

record layout =
  layout_name :: "string option result"

text \<open>
  A slide: \<open>shapes\<close> is the iteration of \<^verbatim>\<open>slide.shapes\<close>, \<open>shapes_title\<close> the read
  \<^verbatim>\<open>slide.shapes.title\<close> (a shape or \<^verbatim>\<open>None\<close>), \<open>notes_slide\<close> the iteration of
  \<^verbatim>\<open>slide.notes_slide.shapes\<close>.
\<close>

record slide =
  shapes :: "shape list"
  shapes_title :: "shape option result"
  slide_layout :: "layout option result"
  notes_slide :: "shape list result"
  part :: "slide_part result"

section \<open>The per-shape step (lines 38 to 67)\<close>

text \<open>Line 40: \<^verbatim>\<open>stype.name if hasattr(stype, 'name') else str(stype)\<close>.\<close>

definition typename :: "mso_shape_type option \<Rightarrow> string" where
  "typename stype = (case stype of Some m \<Rightarrow> member_name m | None \<Rightarrow> ''None'')"

text \<open>\<^verbatim>\<open>shape == other\<close>, where \<open>other\<close> may be \<^verbatim>\<open>None\<close>.\<close>

definition shape_eq :: "shape \<Rightarrow> shape option \<Rightarrow> bool" where
  "shape_eq sh other = (case other of None \<Rightarrow> False | Some t \<Rightarrow> element sh = element t)"

text \<open>Lines 43 to 47: the title marker, inside \<^verbatim>\<open>try ... except Exception: pass\<close>.\<close>

definition title_marker :: "slide \<Rightarrow> shape \<Rightarrow> string" where
  "title_marker sl sh =
     (case getattr_default (shapes_title sl) None of
        Inl e \<Rightarrow> []
      | Inr t \<Rightarrow> if shape_eq sh t then '' [TITLE]'' else [])"

text \<open>Lines 48 to 53: the \<^verbatim>\<open>getattr\<close> is outside the \<^verbatim>\<open>try\<close>, the read of the index
  inside it.\<close>

definition placeholder_field :: "shape \<Rightarrow> string result" where
  "placeholder_field sh =
     (case getattr_default (is_placeholder sh) False of
        Inl e \<Rightarrow> Inl e
      | Inr b \<Rightarrow>
          if b then
            (case placeholder_format_idx sh of
               Inl e \<Rightarrow> Inr []
             | Inr pidx \<Rightarrow> Inr ('' (placeholder idx='' @ str_int pidx @ '')''))
          else Inr [])"

text \<open>Line 56: \<^verbatim>\<open>txt[:300] + ("..." if len(txt) > 300 else "")\<close>.\<close>

definition snippet :: "string \<Rightarrow> string" where
  "snippet txt = take 300 txt @ (if length txt > 300 then ''...'' else [])"

text \<open>Lines 54 to 57: no \<^verbatim>\<open>try\<close> around the read of \<^verbatim>\<open>shape.text\<close>.\<close>

definition text_field :: "shape \<Rightarrow> string result" where
  "text_field sh =
     (case getattr_default (has_text_frame sh) False of
        Inl e \<Rightarrow> Inl e
      | Inr b \<Rightarrow>
          if b then
            (case shape_text sh of
               Inl e \<Rightarrow> Inl e
             | Inr t \<Rightarrow> Inr ('' | text='' @ [quote] @ snippet (strip_replace t) @ [quote]))
          else Inr [])"

text \<open>Lines 61 to 63, the body of the \<^verbatim>\<open>try\<close>: the reads in the order the f-string
  makes them. A \<^verbatim>\<open>filename\<close> of \<^verbatim>\<open>None\<close> is formatted as \<^verbatim>\<open>None\<close>.\<close>

definition picture_descr :: "shape \<Rightarrow> string result" where
  "picture_descr sh =
     (case shape_image sh of
        Inl e \<Rightarrow> Inl e
      | Inr img \<Rightarrow>
     (case img_blob img of
        Inl e \<Rightarrow> Inl e
      | Inr blob \<Rightarrow>
     (case getattr_default (img_filename img) (Some ''embedded'') of
        Inl e \<Rightarrow> Inl e
      | Inr fname \<Rightarrow>
     (case img_ext img of
        Inl e \<Rightarrow> Inl e
      | Inr ext \<Rightarrow>
          Inr ('' | picture: '' @ (case fname of None \<Rightarrow> ''None'' | Some f \<Rightarrow> f)
               @ '' ('' @ str_nat (length blob) @ '' bytes, ext='' @ ext @ '')'')))))"

text \<open>Lines 59 to 65: \<^verbatim>\<open>or\<close> evaluates \<^verbatim>\<open>hasattr\<close> only when the type is not
  \<^verbatim>\<open>PICTURE\<close>; the \<^verbatim>\<open>except Exception\<close> gives the fallback text.\<close>

definition picture_field :: "mso_shape_type option \<Rightarrow> shape \<Rightarrow> string result" where
  "picture_field stype sh =
     (case (if stype = Some PICTURE then Inr True else hasattr (shape_image sh)) of
        Inl e \<Rightarrow> Inl e
      | Inr b \<Rightarrow>
          if b then
            (case picture_descr sh of
               Inl e \<Rightarrow> Inr '' | picture: (could not read image)''
             | Inr d \<Rightarrow> Inr d)
          else Inr [])"

text \<open>The body of the loop over the shapes: the line it prints, or the exception that
  leaves it.\<close>

definition shape_line :: "slide \<Rightarrow> nat \<Rightarrow> shape \<Rightarrow> string result" where
  "shape_line sl si sh =
     (case shape_type sh of
        Inl e \<Rightarrow> Inl e
      | Inr stype \<Rightarrow>
     (case placeholder_field sh of
        Inl e \<Rightarrow> Inl e
      | Inr ph \<Rightarrow>
     (case text_field sh of
        Inl e \<Rightarrow> Inl e
      | Inr txt \<Rightarrow>
     (case picture_field stype sh of
        Inl e \<Rightarrow> Inl e
      | Inr pic \<Rightarrow>
          Inr (''Shape '' @ str_nat si @ '': '' @ typename stype
               @ title_marker sl sh @ ph @ txt @ pic)))))"

section \<open>The per-slide step (lines 18 to 99)\<close>

text \<open>What a piece of the script has printed, one entry for each \<^verbatim>\<open>print\<close> call, and the
  exception it was left by, if any.\<close>

type_synonym report = "string list \<times> exn option"

text \<open>Sequencing: the second piece runs only when the first one returned.\<close>

definition andthen :: "report \<Rightarrow> report \<Rightarrow> report" where
  "andthen a b = (case snd a of Some e \<Rightarrow> a | None \<Rightarrow> (fst a @ fst b, snd b))"

definition prints :: "string list \<Rightarrow> report" where
  "prints ls = (ls, None)"

definition of_result :: "string list result \<Rightarrow> report" where
  "of_result r = (case r of Inl e \<Rightarrow> ([], Some e) | Inr ls \<Rightarrow> (ls, None))"

text \<open>Lines 21 to 27: every exception gives \<^verbatim>\<open>title_text = None\<close>.\<close>

definition title_text :: "slide \<Rightarrow> string option" where
  "title_text sl =
     (case shapes_title sl of
        Inl e \<Rightarrow> None
      | Inr None \<Rightarrow> None
      | Inr (Some title_shape) \<Rightarrow>
          (case getattr_default (has_text_frame title_shape) False of
             Inl e \<Rightarrow> None
           | Inr b \<Rightarrow>
               if b then
                 (case shape_text title_shape of
                    Inl e \<Rightarrow> None
                  | Inr t \<Rightarrow> Some (strip_replace t))
               else None))"

text \<open>Lines 28 and 29: \<^verbatim>\<open>if title_text:\<close> holds for a string that is not empty.\<close>

definition title_lines :: "slide \<Rightarrow> string list" where
  "title_lines sl =
     (case title_text sl of
        None \<Rightarrow> []
      | Some t \<Rightarrow> if t \<noteq> [] then [''Title: '' @ t] else [])"

text \<open>Lines 31 to 35.\<close>

definition layout_lines :: "slide \<Rightarrow> string list result" where
  "layout_lines sl =
     (case getattr_default (slide_layout sl) None of
        Inl e \<Rightarrow> Inl e
      | Inr None \<Rightarrow> Inr []
      | Inr (Some l) \<Rightarrow>
          (case getattr_default (layout_name l) None of
             Inl e \<Rightarrow> Inl e
           | Inr None \<Rightarrow> Inr []
           | Inr (Some n) \<Rightarrow> Inr (if n \<noteq> [] then [''Layout: '' @ n] else [])))"

text \<open>Lines 38 to 67: \<^verbatim>\<open>enumerate(slide.shapes, start=1)\<close>; an exception of the body
  ends the loop.\<close>

fun shapes_loop :: "slide \<Rightarrow> nat \<Rightarrow> shape list \<Rightarrow> report" where
  "shapes_loop sl si [] = ([], None)"
| "shapes_loop sl si (sh # rest) =
     (case shape_line sl si sh of
        Inl e \<Rightarrow> ([], Some e)
      | Inr info \<Rightarrow> andthen (prints [info]) (shapes_loop sl (Suc si) rest))"

text \<open>Lines 73 to 77: the texts collected from the notes shapes.\<close>

fun notes_texts :: "shape list \<Rightarrow> string list result" where
  "notes_texts [] = Inr []"
| "notes_texts (nsh # rest) =
     (case getattr_default (has_text_frame nsh) False of
        Inl e \<Rightarrow> Inl e
      | Inr b \<Rightarrow>
          if b then
            (case shape_text nsh of
               Inl e \<Rightarrow> Inl e
             | Inr t \<Rightarrow>
                 (case notes_texts rest of
                    Inl e \<Rightarrow> Inl e
                  | Inr ts \<Rightarrow>
                      Inr (if strip_replace t \<noteq> [] then strip_replace t # ts else ts)))
          else notes_texts rest)"

text \<open>Lines 70 to 82: the whole block is inside \<^verbatim>\<open>try ... except Exception: pass\<close>, and
  it prints at its end only.\<close>

definition notes_lines :: "slide \<Rightarrow> string list" where
  "notes_lines sl =
     (case notes_slide sl of
        Inl e \<Rightarrow> []
      | Inr nshapes \<Rightarrow>
          (case notes_texts nshapes of
             Inl e \<Rightarrow> []
           | Inr ts \<Rightarrow>
               if ts \<noteq> [] then [''Notes: '' @ take 400 (join '' | '' ts)] else []))"

text \<open>Lines 86 to 93: the list \<^verbatim>\<open>imgs\<close>. The size is read inside a \<^verbatim>\<open>try\<close>, the part
  name is not.\<close>

fun related_images :: "related_part list \<Rightarrow> string list result" where
  "related_images [] = Inr []"
| "related_images (rel # rest) =
     (case getattr_default (content_type rel) [] of
        Inl e \<Rightarrow> Inl e
      | Inr ct \<Rightarrow>
          if startswith ct ''image/'' then
            (case partname rel of
               Inl e \<Rightarrow> Inl e
             | Inr pn \<Rightarrow>
                 (case related_images rest of
                    Inl e \<Rightarrow> Inl e
                  | Inr imgs \<Rightarrow>
                      Inr ((pn @ '' ('' @ ct @ '', ''
                            @ (case part_blob rel of
                                 Inl e \<Rightarrow> ''unknown''
                               | Inr b \<Rightarrow> str_nat (length b))
                            @ '' bytes)'') # imgs)))
          else related_images rest)"

text \<open>Lines 85 to 97; \<^verbatim>\<open>print(" -", it)\<close> puts one space between its arguments.\<close>

definition image_lines :: "slide \<Rightarrow> string list result" where
  "image_lines sl =
     (case part sl of
        Inl e \<Rightarrow> Inl e
      | Inr p \<Rightarrow>
          (case getattr_default (related_parts p) [] of
             Inl e \<Rightarrow> Inl e
           | Inr rels \<Rightarrow>
               (case related_images rels of
                  Inl e \<Rightarrow> Inl e
                | Inr imgs \<Rightarrow>
                    Inr (if imgs \<noteq> []
                         then ''Images in slide:'' # map (\<lambda>it. '' - '' @ it) imgs
                         else []))))"

definition slide_header :: "nat \<Rightarrow> string" where
  "slide_header i = ''--- Slide '' @ str_nat i @ '' ---''"

text \<open>The body of the loop over the slides.\<close>

definition summarize_slide :: "nat \<Rightarrow> slide \<Rightarrow> report" where
  "summarize_slide i sl =
     andthen (prints (slide_header i # title_lines sl))
    (andthen (of_result (layout_lines sl))
    (andthen (shapes_loop sl 1 (shapes sl))
    (andthen (prints (notes_lines sl))
    (andthen (of_result (image_lines sl))
             (prints [[]])))))"

text \<open>Line 18: \<^verbatim>\<open>enumerate(prs.slides, start=1)\<close>.\<close>

fun slides_loop :: "nat \<Rightarrow> slide list \<Rightarrow> report" where
  "slides_loop i [] = ([], None)"
| "slides_loop i (sl # rest) = andthen (summarize_slide i sl) (slides_loop (Suc i) rest)"

text \<open>\<^verbatim>\<open>summarize_presentation(path)\<close>; the first argument is the library's
  \<^verbatim>\<open>Presentation\<close>, which gives the slides of the file or raises.\<close>

definition summarize_presentation :: "(string \<Rightarrow> slide list result) \<Rightarrow> string \<Rightarrow> report" where
  "summarize_presentation Presentation path =
     (case Presentation path of
        Inl e \<Rightarrow> ([], Some e)
      | Inr slides \<Rightarrow>
          andthen (prints [''File: '' @ path,
                           ''Slide count: '' @ str_nat (length slides),
                           []])
                  (slides_loop 1 slides))"

section \<open>The command line, conversion and cleanup (lines 102 to 148)\<close>





text \<open>
  What the run meets outside the script: \<^verbatim>\<open>shutil.which('soffice')\<close>, the directory
  \<^verbatim>\<open>tempfile.mkdtemp\<close> creates, the outcome of \<^verbatim>\<open>subprocess.run(..., check=True)\<close> (the
  paths the converter has written when it exits with status 0, \<^verbatim>\<open>CalledProcessError\<close>
  when it exits with another status, any other exception when it cannot be started),
  the outcome of \<^verbatim>\<open>shutil.rmtree\<close>, and the library's \<^verbatim>\<open>Presentation\<close>. The paths that
  exist are a set, which \<^verbatim>\<open>os.path.exists\<close> reads.
\<close>

record env =
  which_soffice :: "string option"
  mkdtemp :: "string result"
  subprocess_run :: "string set result"
  rmtree :: "unit result"
  Presentation :: "string \<Rightarrow> slide list result"










section \<open>Reading a report\<close>

text \<open>The slide headers and the shape lines among printed lines.\<close>

definition slide_sections :: "string list \<Rightarrow> string list" where
  "slide_sections ls = filter (\<lambda>l. startswith l ''--- Slide '') ls"

definition shape_lines :: "string list \<Rightarrow> string list" where
  "shape_lines ls = filter (\<lambda>l. startswith l ''Shape '') ls"

section \<open>Example documents\<close>

text \<open>A text box with the given text, and a slide that has nothing but notes shapes.\<close>

definition text_shape :: "string \<Rightarrow> shape" where
  "text_shape t =
     \<lparr>element = 7, shape_type = Inr (Some (OtherMember ''TEXT_BOX'')),
      is_placeholder = Inr False, placeholder_format_idx = Inl ValueError,
      has_text_frame = Inr True, shape_text = Inr t, shape_image = Inl AttributeError\<rparr>"

definition notes_only_slide :: "shape list \<Rightarrow> slide" where
  "notes_only_slide ns =
     \<lparr>shapes = [], shapes_title = Inr None, slide_layout = Inr None,
      notes_slide = Inr ns, part = Inr \<lparr>related_parts = Inl AttributeError\<rparr>\<rparr>"

text \<open>A shape with a text frame whose text cannot be read, as for a run of the text that
  lacks its text element.\<close>

definition unreadable_text_shape :: shape where
  "unreadable_text_shape =
     \<lparr>element = 8, shape_type = Inr (Some (OtherMember ''AUTO_SHAPE'')),
      is_placeholder = Inr False, placeholder_format_idx = Inl ValueError,
      has_text_frame = Inr True, shape_text = Inl ValueError,
      shape_image = Inl AttributeError\<rparr>"

text \<open>A slide whose only shape is its title shape.\<close>

definition titled_slide :: "shape \<Rightarrow> slide" where
  "titled_slide t =
     \<lparr>shapes = [t], shapes_title = Inr (Some t), slide_layout = Inr None,
      notes_slide = Inr [], part = Inr \<lparr>related_parts = Inl AttributeError\<rparr>\<rparr>"

text \<open>A related part with the given content type, and a slide that has nothing but
  related parts.\<close>

definition plain_part :: "string \<Rightarrow> related_part" where
  "plain_part ct = \<lparr>content_type = Inr ct, part_blob = Inr ''abcd'', partname = Inr ''/ppt/slides/part1''\<rparr>"

definition slide_with_parts :: "related_part list \<Rightarrow> slide" where
  "slide_with_parts rels =
     \<lparr>shapes = [], shapes_title = Inr None, slide_layout = Inr None,
      notes_slide = Inr [], part = Inr \<lparr>related_parts = Inr rels\<rparr>\<rparr>"

text \<open>A shape of a kind the library does not support: its \<^verbatim>\<open>shape_type\<close> raises
  \<^verbatim>\<open>NotImplementedError\<close>. A file that opens with the given slides.\<close>

definition unsupported_shape :: shape where
  "unsupported_shape =
     \<lparr>element = 9, shape_type = Inl NotImplementedError,
      is_placeholder = Inr False, placeholder_format_idx = Inl ValueError,
      has_text_frame = Inr False, shape_text = Inl AttributeError,
      shape_image = Inl AttributeError\<rparr>"

definition open_deck :: "slide list \<Rightarrow> string \<Rightarrow> slide list result" where
  "open_deck slides path = Inr slides"


section \<open>Basic facts\<close>

declare str_nat.simps [simp del]

lemma snippet_length: "length (snippet txt) \<le> 303"
  by (simp add: snippet_def)

lemma length_join:
  "length (join sep ts) = sum_list (map length ts) + length sep * (length ts - 1)"
  by (induction sep ts rule: join.induct) simp_all

text \<open>Sequencing.\<close>

lemma andthen_prints: "andthen (prints ls) b = (ls @ fst b, snd b)"
  by (simp add: andthen_def prints_def)

lemma snd_andthen_None: "snd (andthen a b) = None \<longleftrightarrow> snd a = None \<and> snd b = None"
  by (auto simp: andthen_def split: option.splits)

lemma fst_andthen_None: "snd a = None \<Longrightarrow> fst (andthen a b) = fst a @ fst b"
  by (simp add: andthen_def)

lemma set_fst_andthen: "l \<in> set (fst (andthen a b)) \<Longrightarrow> l \<in> set (fst a) \<or> l \<in> set (fst b)"
  by (auto simp: andthen_def split: option.splits)





text \<open>How each kind of printed line begins.\<close>

lemma shape_line_form:
  "shape_line sl si sh = Inr info \<Longrightarrow>
     \<exists>stype rest. shape_type sh = Inr stype
        \<and> info = ''Shape '' @ str_nat si @ '': '' @ typename stype @ title_marker sl sh @ rest"
  by (auto simp: shape_line_def split: sum.splits)

lemma shapes_loop_lines:
  "l \<in> set (fst (shapes_loop sl si shs)) \<Longrightarrow> startswith l ''Shape ''"
proof (induction shs arbitrary: si)
  case Nil
  then show ?case by simp
next
  case (Cons sh shs)
  show ?case
  proof (cases "shape_line sl si sh")
    case (Inl e)
    with Cons.prems show ?thesis by simp
  next
    case (Inr info)
    with Cons.prems have "l = info \<or> l \<in> set (fst (shapes_loop sl (Suc si) shs))"
      by (auto simp: andthen_prints)
    then show ?thesis
    proof
      assume "l = info"
      with shape_line_form [OF Inr] show ?thesis by auto
    next
      assume "l \<in> set (fst (shapes_loop sl (Suc si) shs))"
      then show ?thesis by (rule Cons.IH)
    qed
  qed
qed

lemma layout_lines_form:
  "l \<in> set (fst (of_result (layout_lines sl))) \<Longrightarrow> startswith l ''Layout: ''"
  by (auto simp: of_result_def layout_lines_def split: sum.splits option.splits if_splits)

lemma notes_lines_form:
  "l \<in> set (notes_lines sl) \<Longrightarrow> startswith l ''Notes: ''"
  by (auto simp: notes_lines_def split: sum.splits option.splits if_splits)

lemma image_lines_form:
  "l \<in> set (fst (of_result (image_lines sl))) \<Longrightarrow> l = ''Images in slide:'' \<or> startswith l '' - ''"
  by (auto simp: of_result_def image_lines_def split: sum.splits option.splits if_splits)

lemma title_lines_form:
  "l \<in> set (title_lines sl) \<Longrightarrow> startswith l ''Title: ''"
  by (auto simp: title_lines_def split: option.splits if_splits)

lemma slide_header_form: "startswith (slide_header i) ''--- Slide ''"
  by (simp add: slide_header_def)




lemma startswith_hd: "startswith l (p # ps) \<Longrightarrow> l \<noteq> [] \<and> hd l = p"
  by (cases l) simp_all

lemma related_images_none:
  assumes "\<forall>rel \<in> set rels. \<forall>ct. content_type rel = Inr ct \<longrightarrow> \<not> startswith ct ''image/''"
    and "related_images rels = Inr imgs"
  shows "imgs = []"
  using assms
proof (induction rels arbitrary: imgs)
  case Nil
  then show ?case by simp
next
  case (Cons rel rels)
  from Cons.prems(1) have "\<And>ct. getattr_default (content_type rel) [] = Inr ct \<Longrightarrow> \<not> startswith ct ''image/''"
    by (auto simp: getattr_default_def split: sum.splits if_splits)
  with Cons.prems(2) have "related_images rels = Inr imgs"
    by (auto split: sum.splits if_splits)
  with Cons.IH Cons.prems(1) show ?case by simp
qed

lemma image_lines_none:
  assumes "\<forall>p rels rel ct. part sl = Inr p \<and> related_parts p = Inr rels \<and> rel \<in> set rels
              \<and> content_type rel = Inr ct \<longrightarrow> \<not> startswith ct ''image/''"
  shows "fst (of_result (image_lines sl)) = []"
proof (cases "image_lines sl")
  case (Inl e)
  then show ?thesis by (simp add: of_result_def)
next
  case (Inr ls)
  then obtain p rels imgs where p: "part sl = Inr p"
      and r: "getattr_default (related_parts p) [] = Inr rels"
      and i: "related_images rels = Inr imgs"
      and ls: "ls = (if imgs \<noteq> [] then ''Images in slide:'' # map (\<lambda>it. '' - '' @ it) imgs else [])"
    by (auto simp: image_lines_def split: sum.splits)
  from r have "related_parts p = Inr rels \<or> rels = []"
    by (auto simp: getattr_default_def split: sum.splits if_splits)
  with assms p have "\<forall>rel \<in> set rels. \<forall>ct. content_type rel = Inr ct \<longrightarrow> \<not> startswith ct ''image/''"
    by auto
  from related_images_none [OF this i] ls Inr show ?thesis by (simp add: of_result_def)
qed

lemma summarize_slide_tail:
  "\<exists>rest. fst (summarize_slide i sl) = slide_header i # rest
     \<and> (\<forall>l \<in> set rest. l \<in> set (title_lines sl) \<or> startswith l ''Layout: ''
          \<or> startswith l ''Shape '' \<or> startswith l ''Notes: ''
          \<or> l \<in> set (fst (of_result (image_lines sl))) \<or> l = [])"
proof -
  let ?tail = "andthen (of_result (layout_lines sl))
    (andthen (shapes_loop sl 1 (shapes sl))
    (andthen (prints (notes_lines sl))
    (andthen (of_result (image_lines sl))
             (prints [[]]))))"
  have eq: "fst (summarize_slide i sl) = slide_header i # (title_lines sl @ fst ?tail)"
    by (simp add: summarize_slide_def andthen_prints)
  have "l \<in> set (fst (of_result (layout_lines sl)))
      \<or> l \<in> set (fst (shapes_loop sl 1 (shapes sl)))
      \<or> l \<in> set (notes_lines sl)
      \<or> l \<in> set (fst (of_result (image_lines sl)))
      \<or> l = []" if "l \<in> set (fst ?tail)" for l
    using that by (auto dest!: set_fst_andthen simp: prints_def)
  then have "l \<in> set (title_lines sl) \<or> startswith l ''Layout: ''
          \<or> startswith l ''Shape '' \<or> startswith l ''Notes: ''
          \<or> l \<in> set (fst (of_result (image_lines sl))) \<or> l = []"
    if "l \<in> set (title_lines sl @ fst ?tail)" for l
    using that layout_lines_form [of l sl] shapes_loop_lines [of l sl 1 "shapes sl"]
      notes_lines_form [of l sl]
    by (simp only: set_append Un_iff) blast
  with eq show ?thesis by blast
qed

lemma not_header_kinds:
  assumes "l \<in> set (title_lines sl) \<or> startswith l ''Layout: ''
          \<or> startswith l ''Shape '' \<or> startswith l ''Notes: ''
          \<or> l \<in> set (fst (of_result (image_lines sl))) \<or> l = []"
  shows "\<not> startswith l ''--- Slide ''"
proof -
  from assms have "hd l = CHR ''T'' \<or> hd l = CHR ''L'' \<or> hd l = CHR ''S''
      \<or> hd l = CHR ''N'' \<or> hd l = CHR ''I'' \<or> hd l = CHR '' '' \<or> l = []"
    using title_lines_form [of l sl] image_lines_form [of l sl]
    by (elim disjE) (auto dest!: startswith_hd)
  then show ?thesis by (auto dest!: startswith_hd)
qed

lemma not_shape_kinds:
  assumes "l \<in> set (title_lines sl) \<or> l \<in> set (fst (of_result (layout_lines sl)))
        \<or> l \<in> set (notes_lines sl) \<or> l \<in> set (fst (of_result (image_lines sl)))"
  shows "\<not> startswith l ''Shape ''"
proof -
  from assms have "hd l = CHR ''T'' \<or> hd l = CHR ''L''
      \<or> hd l = CHR ''N'' \<or> hd l = CHR ''I'' \<or> hd l = CHR '' ''"
    using title_lines_form [of l sl] image_lines_form [of l sl] layout_lines_form [of l sl]
      notes_lines_form [of l sl]
    by (elim disjE) (auto dest!: startswith_hd)
  then show ?thesis by (auto dest!: startswith_hd)
qed

lemma slide_sections_slide: "slide_sections (fst (summarize_slide i sl)) = [slide_header i]"
proof -
  from summarize_slide_tail [of i sl] obtain rest where
    eq: "fst (summarize_slide i sl) = slide_header i # rest"
    and rest: "\<forall>l \<in> set rest. l \<in> set (title_lines sl) \<or> startswith l ''Layout: ''
          \<or> startswith l ''Shape '' \<or> startswith l ''Notes: ''
          \<or> l \<in> set (fst (of_result (image_lines sl))) \<or> l = []"
    by blast
  have "\<not> startswith l ''--- Slide ''" if "l \<in> set rest" for l
  proof -
    from that rest have "l \<in> set (title_lines sl) \<or> startswith l ''Layout: ''
          \<or> startswith l ''Shape '' \<or> startswith l ''Notes: ''
          \<or> l \<in> set (fst (of_result (image_lines sl))) \<or> l = []"
      by blast
    then show ?thesis by (rule not_header_kinds)
  qed
  then have "filter (\<lambda>l. startswith l ''--- Slide '') rest = []"
    by (simp add: filter_empty_conv)
  with eq show ?thesis
    by (simp add: slide_sections_def slide_header_form)
qed

lemma slide_sections_append:
  "slide_sections (xs @ ys) = slide_sections xs @ slide_sections ys"
  by (simp add: slide_sections_def)

lemma slides_loop_complete:
  "snd (slides_loop i sls) = None \<Longrightarrow>
     fst (slides_loop i sls) = concat (map (\<lambda>(j, sl). fst (summarize_slide j sl)) (enumerate i sls))
   \<and> (\<forall>(j, sl) \<in> set (enumerate i sls). snd (summarize_slide j sl) = None)"
proof (induction sls arbitrary: i)
  case Nil
  then show ?case by simp
next
  case (Cons sl sls)
  from Cons.prems have a: "snd (summarize_slide i sl) = None"
    and b: "snd (slides_loop (Suc i) sls) = None"
    by (simp_all add: snd_andthen_None)
  from Cons.IH [OF b] a show ?case
    by (simp add: fst_andthen_None)
qed

lemma slide_sections_loop:
  "snd (slides_loop i sls) = None \<Longrightarrow>
     slide_sections (fst (slides_loop i sls)) = map slide_header [i..<i + length sls]"
proof (induction sls arbitrary: i)
  case Nil
  then show ?case by (simp add: slide_sections_def)
next
  case (Cons sl sls)
  from Cons.prems have a: "snd (summarize_slide i sl) = None"
    and b: "snd (slides_loop (Suc i) sls) = None"
    by (simp_all add: snd_andthen_None)
  have "[i..<i + length (sl # sls)] = i # [Suc i..<Suc i + length sls]"
    by (simp add: upt_rec)
  with Cons.IH [OF b] a show ?case
    by (simp add: fst_andthen_None slide_sections_append slide_sections_slide)
qed

lemma shapes_loop_complete:
  "snd (shapes_loop sl si shs) = None \<Longrightarrow>
     map Inr (fst (shapes_loop sl si shs)) = map (\<lambda>(k, sh). shape_line sl k sh) (enumerate si shs)"
proof (induction shs arbitrary: si)
  case Nil
  then show ?case by simp
next
  case (Cons sh shs)
  from Cons.prems obtain info where i: "shape_line sl si sh = Inr info"
    by (cases "shape_line sl si sh") simp_all
  with Cons.prems have "snd (shapes_loop sl (Suc si) shs) = None"
    by (simp add: andthen_prints)
  from Cons.IH [OF this] i show ?case
    by (simp add: andthen_prints)
qed

lemma shape_lines_slide:
  assumes "snd (summarize_slide i sl) = None"
  shows "shape_lines (fst (summarize_slide i sl)) = fst (shapes_loop sl 1 (shapes sl))
       \<and> snd (shapes_loop sl 1 (shapes sl)) = None"
proof -
  from assms have c: "snd (of_result (layout_lines sl)) = None"
      "snd (shapes_loop sl 1 (shapes sl)) = None"
      "snd (of_result (image_lines sl)) = None"
    by (simp_all add: summarize_slide_def snd_andthen_None)
  then have eq: "fst (summarize_slide i sl) =
      (slide_header i # title_lines sl) @ fst (of_result (layout_lines sl))
      @ fst (shapes_loop sl 1 (shapes sl)) @ notes_lines sl
      @ fst (of_result (image_lines sl)) @ [[]]"
    by (simp add: summarize_slide_def fst_andthen_None snd_andthen_None prints_def)
  have no: "\<not> startswith l ''Shape ''"
    if "l \<in> set (title_lines sl) \<or> l \<in> set (fst (of_result (layout_lines sl)))
        \<or> l \<in> set (notes_lines sl) \<or> l \<in> set (fst (of_result (image_lines sl)))" for l
    using that by (rule not_shape_kinds)
  have yes: "startswith l ''Shape ''" if "l \<in> set (fst (shapes_loop sl 1 (shapes sl)))" for l
    using that by (rule shapes_loop_lines)
  have "shape_lines (fst (summarize_slide i sl)) = fst (shapes_loop sl 1 (shapes sl))"
    unfolding eq shape_lines_def
    using no yes by (simp add: filter_empty_conv filter_id_conv slide_header_def)
  with c show ?thesis by simp
qed







section \<open>Truncation of shape text and notes\<close>

text \<open>
  Claim C4. When a shape has a text frame and its text can be read, the line printed for
  the shape holds the snippet between quotes; the snippet is the first 300 characters of
  the stripped text, followed by \<^verbatim>\<open>...\<close> exactly when the stripped text is longer than
  300 characters, so it has at most 303 characters. The text of every \<^verbatim>\<open>Notes:\<close> line
  has at most 400 characters.
\<close>

theorem snippet_and_notes_length_bounds:
  "(has_text_frame sh = Inr True \<and> shape_text sh = Inr t \<and> shape_line sl si sh = Inr info \<longrightarrow>
      (\<exists>before s after.
          info = before @ '' | text='' @ [quote] @ s @ [quote] @ after
        \<and> s = take 300 (strip_replace t)
              @ (if 300 < length (strip_replace t) then ''...'' else [])
        \<and> length s \<le> 303))
   \<and> (\<forall>l \<in> set (notes_lines sl). \<exists>n. l = ''Notes: '' @ n \<and> length n \<le> 400)"
proof (intro conjI impI)
  assume h: "has_text_frame sh = Inr True \<and> shape_text sh = Inr t
             \<and> shape_line sl si sh = Inr info"
  then have tf: "text_field sh
      = Inr ('' | text='' @ [quote] @ snippet (strip_replace t) @ [quote])"
    by (simp add: text_field_def getattr_default_def)
  from h obtain stype ph pic where
    "info = (''Shape '' @ str_nat si @ '': '' @ typename stype @ title_marker sl sh @ ph)
            @ '' | text='' @ [quote] @ snippet (strip_replace t) @ [quote] @ pic"
    by (auto simp: shape_line_def tf split: sum.splits)
  moreover have "snippet (strip_replace t) =
      take 300 (strip_replace t) @ (if 300 < length (strip_replace t) then ''...'' else [])"
    by (simp add: snippet_def)
  ultimately show "\<exists>before s after.
          info = before @ '' | text='' @ [quote] @ s @ [quote] @ after
        \<and> s = take 300 (strip_replace t)
              @ (if 300 < length (strip_replace t) then ''...'' else [])
        \<and> length s \<le> 303"
    using snippet_length [of "strip_replace t"] by metis
next
  show "\<forall>l \<in> set (notes_lines sl). \<exists>n. l = ''Notes: '' @ n \<and> length n \<le> 400"
    by (auto simp: notes_lines_def split: sum.splits)
qed

text \<open>A text of 301 characters is printed as its first 300 characters and the marker;
  a short note is printed whole.\<close>

theorem snippet_and_notes_length_bounds_witness:
  "(\<exists>before s after.
       ''Shape 1: TEXT_BOX | text='' @ [quote] @ replicate 300 (CHR ''a'') @ ''...'' @ [quote]
         = before @ '' | text='' @ [quote] @ s @ [quote] @ after
     \<and> s = take 300 (strip_replace (replicate 301 (CHR ''a'')))
           @ (if 300 < length (strip_replace (replicate 301 (CHR ''a''))) then ''...'' else [])
     \<and> length s \<le> 303)
   \<and> (\<exists>n. ''Notes: remember'' = ''Notes: '' @ n \<and> length n \<le> 400)"
proof -
  let ?sl = "notes_only_slide [text_shape '' remember '']"
  let ?sh = "text_shape (replicate 301 (CHR ''a''))"
  have h: "has_text_frame ?sh = Inr True \<and> shape_text ?sh = Inr (replicate 301 (CHR ''a''))
      \<and> shape_line ?sl 1 ?sh
          = Inr (''Shape 1: TEXT_BOX | text='' @ [quote] @ replicate 300 (CHR ''a'')
                 @ ''...'' @ [quote])"
    by code_simp
  have n: "''Notes: remember'' \<in> set (notes_lines ?sl)"
    by code_simp
  from snippet_and_notes_length_bounds [of ?sh "replicate 301 (CHR ''a'')" ?sl 1
      "''Shape 1: TEXT_BOX | text='' @ [quote] @ replicate 300 (CHR ''a'') @ ''...'' @ [quote]"]
    h n show ?thesis by blast
qed

text \<open>
  Claim C9. When the texts of the notes shapes, joined by \<^verbatim>\<open>" | "\<close>, have more than 400
  characters, the \<^verbatim>\<open>Notes:\<close> line is the first 400 characters of the joined text and
  nothing after them. The joined text counts three characters for each separator.
\<close>

theorem notes_line_is_first_400_of_joined:
  assumes "notes_slide sl = Inr nshapes"
    and "notes_texts nshapes = Inr ts"
    and "400 < length (join '' | '' ts)"
  shows "notes_lines sl = [''Notes: '' @ take 400 (join '' | '' ts)]
       \<and> length (take 400 (join '' | '' ts)) = 400
       \<and> length (join '' | '' ts) = sum_list (map length ts) + 3 * (length ts - 1)"
proof -
  from assms(3) have "ts \<noteq> []" by auto
  then show ?thesis
    using assms by (simp add: notes_lines_def length_join)
qed

text \<open>Two notes of 200 characters each: 400 characters of text, 403 when joined, so the
  line is cut although the texts alone would fit.\<close>

theorem notes_line_is_first_400_of_joined_witness:
  "notes_lines (notes_only_slide
       [text_shape (replicate 200 (CHR ''a'')), text_shape (replicate 200 (CHR ''b''))])
     = [''Notes: ''
        @ take 400 (join '' | '' [replicate 200 (CHR ''a''), replicate 200 (CHR ''b'')])]
   \<and> length (take 400 (join '' | '' [replicate 200 (CHR ''a''), replicate 200 (CHR ''b'')]))
       = 400
   \<and> length (join '' | '' [replicate 200 (CHR ''a''), replicate 200 (CHR ''b'')])
       = sum_list (map length [replicate 200 (CHR ''a''), replicate 200 (CHR ''b'')])
         + 3 * (length [replicate 200 (CHR ''a''), replicate 200 (CHR ''b'')] - 1)"
proof -
  let ?ns = "[text_shape (replicate 200 (CHR ''a'')), text_shape (replicate 200 (CHR ''b''))]"
  let ?ts = "[replicate 200 (CHR ''a''), replicate 200 (CHR ''b'')]"
  have a: "notes_slide (notes_only_slide ?ns) = Inr ?ns"
    by (simp add: notes_only_slide_def)
  have b: "notes_texts ?ns = Inr ?ts"
    by code_simp
  have c: "400 < length (join '' | '' ?ts)"
    by simp
  show ?thesis by (rule notes_line_is_first_400_of_joined [OF a b c])
qed

section \<open>The per-shape step\<close>

text \<open>
  Claim C5. When \<^verbatim>\<open>slide.shapes.title\<close> gives a shape and the shape of the loop is that
  shape (the same element), the line printed for it carries \<^verbatim>\<open>[TITLE]\<close> right after
  the type name.
\<close>

theorem title_shape_line_has_marker:
  assumes "shapes_title sl = Inr (Some t)"
    and "element sh = element t"
    and "shape_line sl si sh = Inr info"
  shows "\<exists>stype rest. shape_type sh = Inr stype
           \<and> info = ''Shape '' @ str_nat si @ '': '' @ typename stype @ '' [TITLE]'' @ rest"
proof -
  from assms(1,2) have "title_marker sl sh = '' [TITLE]''"
    by (simp add: title_marker_def getattr_default_def shape_eq_def)
  with shape_line_form [OF assms(3)] show ?thesis by auto
qed

theorem title_shape_line_has_marker_witness:
  "\<exists>stype rest. shape_type (text_shape ''Intro'') = Inr stype
     \<and> ''Shape 1: TEXT_BOX [TITLE] | text='' @ [quote] @ ''Intro'' @ [quote]
         = ''Shape '' @ str_nat 1 @ '': '' @ typename stype @ '' [TITLE]'' @ rest"
proof -
  have a: "shapes_title (titled_slide (text_shape ''Intro'')) = Inr (Some (text_shape ''Intro''))"
    by (simp add: titled_slide_def)
  have b: "element (text_shape ''Intro'') = element (text_shape ''Intro'')"
    by simp
  have c: "shape_line (titled_slide (text_shape ''Intro'')) 1 (text_shape ''Intro'')
      = Inr (''Shape 1: TEXT_BOX [TITLE] | text='' @ [quote] @ ''Intro'' @ [quote])"
    by code_simp
  show ?thesis by (rule title_shape_line_has_marker [OF a b c])
qed

text \<open>
  Which reads leave the per-shape step: the type, \<^verbatim>\<open>is_placeholder\<close> and
  \<^verbatim>\<open>has_text_frame\<close> when they raise something other than \<^verbatim>\<open>AttributeError\<close>, the
  text of a shape with a text frame, and \<^verbatim>\<open>hasattr(shape, 'image')\<close> for a shape that
  is not a picture. The title marker, the placeholder index and the image descriptor
  are never among them.
\<close>

lemma shape_line_raises_iff:
  "(\<exists>e. shape_line sl si sh = Inl e) \<longleftrightarrow>
     (\<exists>e. shape_type sh = Inl e)
   \<or> (\<exists>e. is_placeholder sh = Inl e \<and> e \<noteq> AttributeError)
   \<or> (\<exists>e. has_text_frame sh = Inl e \<and> e \<noteq> AttributeError)
   \<or> (has_text_frame sh = Inr True \<and> (\<exists>e. shape_text sh = Inl e))
   \<or> (shape_type sh \<noteq> Inr (Some PICTURE)
       \<and> (\<exists>e. shape_image sh = Inl e \<and> e \<noteq> AttributeError))"
  by (auto simp: shape_line_def placeholder_field_def text_field_def picture_field_def
      getattr_default_def hasattr_def split: sum.splits if_splits)

lemma guarded_fields_fall_back:
  "(is_placeholder sh = Inr True \<and> placeholder_format_idx sh = Inl e
      \<longrightarrow> placeholder_field sh = Inr [])
   \<and> (picture_descr sh = Inl e
      \<longrightarrow> picture_field (Some PICTURE) sh = Inr '' | picture: (could not read image)'')
   \<and> (shapes_title sl = Inl e \<longrightarrow> title_marker sl sh = [])"
  by (simp add: placeholder_field_def picture_field_def title_marker_def getattr_default_def
      shape_eq_def)

text \<open>
  Claim C1. The claim says that no failure while the text snippet is derived leaves the
  per-shape step. Lines 54 to 57 read \<^verbatim>\<open>shape.text\<close> outside any \<^verbatim>\<open>try\<close>: for a shape
  with a text frame whose text read raises, the step raises and prints no line, and the
  report ends inside that slide's section. The same read for the title line of the slide
  (lines 22 to 27) is caught.
\<close>

theorem unreadable_text_leaves_shape_step:
  "shape_line (titled_slide unreadable_text_shape) 1 unreadable_text_shape = Inl ValueError
   \<and> summarize_presentation (open_deck [titled_slide unreadable_text_shape]) ''deck.pptx''
       = ([''File: deck.pptx'', ''Slide count: 1'', [], ''--- Slide 1 ---''], Some ValueError)"
  by code_simp

section \<open>The title line\<close>




section \<open>Related images\<close>

text \<open>
  Claim C10. When no part related to the slide has a content type that starts with
  \<^verbatim>\<open>image/\<close>, the slide's section holds neither the line \<^verbatim>\<open>Images in slide:\<close> nor a
  line that starts with \<^verbatim>\<open> - \<close>; so the header and its items are printed only when
  such a part exists.
\<close>

theorem images_header_needs_image_part:
  "(\<forall>p rels rel ct. part sl = Inr p \<and> related_parts p = Inr rels \<and> rel \<in> set rels
        \<and> content_type rel = Inr ct \<longrightarrow> \<not> startswith ct ''image/'')
   \<longrightarrow> ''Images in slide:'' \<notin> set (fst (summarize_slide i sl))
       \<and> (\<forall>l \<in> set (fst (summarize_slide i sl)). \<not> startswith l '' - '')"
proof
  assume h: "\<forall>p rels rel ct. part sl = Inr p \<and> related_parts p = Inr rels \<and> rel \<in> set rels
        \<and> content_type rel = Inr ct \<longrightarrow> \<not> startswith ct ''image/''"
  from summarize_slide_tail [of i sl] obtain rest where
    eq: "fst (summarize_slide i sl) = slide_header i # rest"
    and rest: "\<forall>l \<in> set rest. l \<in> set (title_lines sl) \<or> startswith l ''Layout: ''
          \<or> startswith l ''Shape '' \<or> startswith l ''Notes: ''
          \<or> l \<in> set (fst (of_result (image_lines sl))) \<or> l = []"
    by blast
  have kinds: "hd l = CHR ''T'' \<or> hd l = CHR ''L'' \<or> hd l = CHR ''S'' \<or> hd l = CHR ''N'' \<or> l = []"
    if "l \<in> set rest" for l
    using that rest image_lines_none [OF h] title_lines_form [of l sl]
    by (auto dest!: startswith_hd)
  have hdr: "hd (slide_header i) = CHR ''-''"
    by (simp add: slide_header_def)
  have "hd l = CHR ''-'' \<or> hd l = CHR ''T'' \<or> hd l = CHR ''L'' \<or> hd l = CHR ''S''
      \<or> hd l = CHR ''N'' \<or> l = []"
    if "l \<in> set (fst (summarize_slide i sl))" for l
    using that eq kinds hdr by auto
  then show "''Images in slide:'' \<notin> set (fst (summarize_slide i sl))
       \<and> (\<forall>l \<in> set (fst (summarize_slide i sl)). \<not> startswith l '' - '')"
    by (fastforce dest!: startswith_hd)
qed

theorem images_header_needs_image_part_witness:
  "list_all (\<lambda>l. l \<noteq> ''Images in slide:'' \<and> \<not> startswith l '' - '')
     (fst (summarize_slide 1 (slide_with_parts [plain_part ''application/xml''])))"
proof -
  let ?sl = "slide_with_parts [plain_part ''application/xml'']"
  have h: "\<forall>p rels rel ct. part ?sl = Inr p \<and> related_parts p = Inr rels \<and> rel \<in> set rels
        \<and> content_type rel = Inr ct \<longrightarrow> \<not> startswith ct ''image/''"
    by (auto simp: slide_with_parts_def plain_part_def)
  from images_header_needs_image_part [of ?sl 1] h show ?thesis
    unfolding list_all_iff by blast
qed


text \<open>With one image part the header and one item are printed.\<close>

lemma images_header_printed_example:
  "fst (summarize_slide 1 (slide_with_parts [plain_part ''image/png'']))
     = [''--- Slide 1 ---'', ''Images in slide:'',
        '' - /ppt/slides/part1 (image/png, 4 bytes)'', []]"
  by code_simp

section \<open>Slide sections and their order\<close>

text \<open>In every run the slide headers printed are those of a first part of the slides,
  in order.\<close>

lemma slide_sections_prefix:
  "\<exists>k \<le> length sls. slide_sections (fst (slides_loop i sls)) = map slide_header [i..<i + k]"
proof (induction sls arbitrary: i)
  case Nil
  then show ?case by (simp add: slide_sections_def)
next
  case (Cons sl sls)
  show ?case
  proof (cases "snd (summarize_slide i sl)")
    case (Some e)
    then have "fst (slides_loop i (sl # sls)) = fst (summarize_slide i sl)"
      by (simp add: andthen_def)
    then have "slide_sections (fst (slides_loop i (sl # sls))) = map slide_header [i..<i + 1]"
      by (simp add: slide_sections_slide)
    then show ?thesis by (intro exI [of _ 1]) simp
  next
    case None
    from Cons.IH [of "Suc i"] obtain k where k: "k \<le> length sls"
      and ih: "slide_sections (fst (slides_loop (Suc i) sls)) = map slide_header [Suc i..<Suc i + k]"
      by blast
    have "[i..<i + Suc k] = i # [Suc i..<Suc i + k]"
      by (simp add: upt_rec)
    with None ih have "slide_sections (fst (slides_loop i (sl # sls))) = map slide_header [i..<i + Suc k]"
      by (simp add: fst_andthen_None slide_sections_append slide_sections_slide)
    with k show ?thesis by (intro exI [of _ "Suc k"]) simp
  qed
qed

text \<open>
  Claim C3, as stated, fails: a read that is not guarded ends the report where it raises.
  Here the first of two slides has a shape whose type cannot be read, and the report has
  one slide section.
\<close>

theorem aborted_report_misses_sections:
  "summarize_presentation (open_deck [titled_slide unsupported_shape, notes_only_slide []])
       ''deck.pptx''
     = ([''File: deck.pptx'', ''Slide count: 2'', [], ''--- Slide 1 ---''],
        Some NotImplementedError)
   \<and> length (slide_sections (fst (summarize_presentation
         (open_deck [titled_slide unsupported_shape, notes_only_slide []]) ''deck.pptx'')))
       \<noteq> length [titled_slide unsupported_shape, notes_only_slide []]"
  by code_simp

text \<open>
  Claim C3, amended. When the file opens with the slides \<open>slides\<close> and
  \<^verbatim>\<open>summarize_presentation\<close> returns, the slide headers of the report are those of
  \<open>1\<close> to \<open>length slides\<close> in this order; the report is the three opening lines and then
  the sections of the slides in document order; and the shape lines of each section are
  the lines of the slide's shapes, one for each shape, in the order of the shapes.
\<close>

theorem completed_report_sections:
  assumes "load path = Inr slides"
    and "snd (summarize_presentation load path) = None"
  shows "slide_sections (fst (summarize_presentation load path))
           = map slide_header [1..<Suc (length slides)]
       \<and> fst (summarize_presentation load path)
           = [''File: '' @ path, ''Slide count: '' @ str_nat (length slides), []]
             @ concat (map (\<lambda>(i, sl). fst (summarize_slide i sl)) (enumerate 1 slides))
       \<and> (\<forall>(i, sl) \<in> set (enumerate 1 slides).
             map Inr (shape_lines (fst (summarize_slide i sl)))
               = map (\<lambda>(k, sh). shape_line sl k sh) (enumerate 1 (shapes sl)))"
proof -
  from assms have eq: "summarize_presentation load path
      = andthen (prints [''File: '' @ path, ''Slide count: '' @ str_nat (length slides), []])
          (slides_loop 1 slides)"
    by (simp add: summarize_presentation_def)
  with assms(2) have fin: "snd (slides_loop 1 slides) = None"
    by (simp add: andthen_prints)
  have pre: "slide_sections [''File: '' @ path, ''Slide count: '' @ str_nat (length slides), []] = []"
    by (simp add: slide_sections_def)
  have a: "slide_sections (fst (summarize_presentation load path))
           = map slide_header [1..<Suc (length slides)]"
    using slide_sections_loop [OF fin] pre
    by (simp add: eq andthen_prints slide_sections_append del: append.simps)
  have b: "fst (summarize_presentation load path)
           = [''File: '' @ path, ''Slide count: '' @ str_nat (length slides), []]
             @ concat (map (\<lambda>(i, sl). fst (summarize_slide i sl)) (enumerate 1 slides))"
    using slides_loop_complete [OF fin] by (simp add: eq andthen_prints)
  have c: "map Inr (shape_lines (fst (summarize_slide i sl)))
             = map (\<lambda>(k, sh). shape_line sl k sh) (enumerate 1 (shapes sl))"
    if "(i, sl) \<in> set (enumerate 1 slides)" for i sl
  proof -
    from that slides_loop_complete [OF fin] have "snd (summarize_slide i sl) = None"
      by blast
    from shape_lines_slide [OF this] shapes_loop_complete [of sl 1 "shapes sl"]
    show ?thesis by simp
  qed
  from a b c show ?thesis by blast
qed

theorem completed_report_sections_witness:
  "slide_sections (fst (summarize_presentation
       (open_deck [titled_slide (text_shape ''Intro''), notes_only_slide [text_shape ''say hello'']]) ''deck.pptx''))
     = map slide_header [1..<Suc (length [titled_slide (text_shape ''Intro''), notes_only_slide [text_shape ''say hello'']])]"
proof -
  let ?slides = "[titled_slide (text_shape ''Intro''), notes_only_slide [text_shape ''say hello'']]"
  have a: "open_deck ?slides ''deck.pptx'' = Inr ?slides"
    by (simp add: open_deck_def)
  have b: "snd (summarize_presentation (open_deck ?slides) ''deck.pptx'') = None"
    by code_simp
  from completed_report_sections [OF a b] show ?thesis by blast
qed


section \<open>Choosing the file, conversion and cleanup\<close>








end
